theory Spec2Isabelle
  imports Main "HOL-Library.Word"
begin

unbundle bit_operations_syntax

chapter \<open>Predator Security Suite: dictionary attack scene, Calypso contracts viewer
  and the Calypso helper interface\<close>

text \<open>
  The development embeds three source files:
  \<^item> \<^verbatim>\<open>scenes/predator_scene_dictionary_attack_ui.c\<close>: the timer driven key loop;
  \<^item> \<^verbatim>\<open>scenes/predator_scene_calypso_contracts_ui.c\<close>: the contracts viewer;
  \<^item> \<^verbatim>\<open>helpers/predator_crypto_calypso.h\<close>: the types and prototypes of the Calypso
    helper (the header declares the functions, it holds no function body).
  Machine integers are words of the declared width, so \<open>+\<close>, \<open>-\<close> and \<open>*\<close> wrap as the
  C unsigned types do.
\<close>

type_synonym u8 = "8 word"
type_synonym u16 = "16 word"
type_synonym u32 = "32 word"
type_synonym u64 = "64 word"

section \<open>Firmware types used by the scenes\<close>

text \<open>
  The input and scene-manager event types come from the firmware SDK; the scenes only
  compare their \<open>type\<close> and \<open>key\<close> fields against the enumerators below.
\<close>

datatype InputType =
  InputTypePress | InputTypeRelease | InputTypeShort | InputTypeLong | InputTypeRepeat

datatype InputKey =
  InputKeyUp | InputKeyDown | InputKeyRight | InputKeyLeft | InputKeyOk | InputKeyBack

record InputEvent =
  input_type :: InputType
  input_key :: InputKey

datatype SceneManagerEventType =
  SceneManagerEventTypeCustom | SceneManagerEventTypeBack | SceneManagerEventTypeTick

record SceneManagerEvent =
  event_type :: SceneManagerEventType
  event_id :: u32

text \<open>
  Of \<open>PredatorApp\<close> the dictionary scene reads one member, the \<open>view_dispatcher\<close>
  pointer, and only tests it against \<open>NULL\<close>. A callback context (\<open>ctx\<close>) is a pointer to the
  application that may be \<open>NULL\<close>: an \<open>option\<close>.
\<close>

record PredatorApp =
  view_dispatcher :: bool \<comment> \<open>the pointer is not \<open>NULL\<close>\<close>

section \<open>The dictionary attack scene\<close>

subsection \<open>State\<close>

datatype DictAttackStatus =
    DictAttackStatusIdle
  | DictAttackStatusAttacking
  | DictAttackStatusSuccess
  | DictAttackStatusComplete

record DictAttackState =
  status :: DictAttackStatus
  frequency :: u32
  keys_tried :: u32
  total_keys :: u32
  attack_time_ms :: u32
  found_key :: "u8 list" \<comment> \<open>\<open>char found_key[32]\<close>\<close>
  success :: bool

text \<open>
  The key tables live in \<^verbatim>\<open>helpers/predator_crypto_keys.h\<close>, which is not
  embedded here: the table of Keeloq keys and the two counts are parameters of the
  model. The scene never reads a Hitag2 key, only the count.
\<close>

record key_database =
  KEELOQ_KEYS :: "u64 list"
  KEELOQ_KEY_COUNT :: u32
  HITAG2_KEY_COUNT :: u32

text \<open>
  What the scene does to the outside world, in order: lines written with
  \<open>FURI_LOG_I\<close> and \<open>FURI_LOG_E\<close>, lines handed to \<open>predator_log_append\<close>, and
  custom events sent to the view dispatcher. The two \<open>FURI_LOG_I\<close> lines of the timer
  callback are the only place where a key of the database is touched.
\<close>

datatype effect =
    FuriLogTryingKeeloq u32 u64 \<comment> \<open>"[DICT] Trying Keeloq key %lu: 0x%016llX"\<close>
  | FuriLogTryingHitag2 u32 \<comment> \<open>"[DICT] Trying Hitag2 key %lu"\<close>
  | LogAppendKeysLoaded \<comment> \<open>"DICTIONARY ATTACK: 980+ keys loaded"\<close>
  | LogAppendTestingAll \<comment> \<open>"Testing all Keeloq + Hitag2 keys"\<close>
  | LogAppendStopped \<comment> \<open>"Dictionary attack stopped"\<close>
  | LogAppendProgress u32 u32 u32 \<comment> \<open>"Progress: %lu/%lu (%lu%%)"\<close>
  | LogAppendComplete \<comment> \<open>"Dictionary attack complete"\<close>
  | SendCustomEvent u32
  | FuriLogErrorAppNull \<comment> \<open>"ERROR: app context is NULL!"\<close>
  | FuriLogErrorViewDispatcherNull \<comment> \<open>"ERROR: view_dispatcher is NULL!"\<close>
  | FuriLogErrorViewAlloc \<comment> \<open>"ERROR: Failed to allocate view!"\<close>
  | FuriLogErrorTimerAlloc \<comment> \<open>"ERROR: Failed to allocate timer!"\<close>
  | FuriLogInitialized \<comment> \<open>"Dictionary Attack UI initialized - 980+ keys ready"\<close>
  | FuriLogExited \<comment> \<open>"Dictionary Attack UI exited"\<close>

text \<open>
  The file-level statics \<open>dict_state\<close> and \<open>attack_start_tick\<close>, together with
  the effects produced so far.
\<close>

record dict_world =
  dict_state :: DictAttackState
  attack_start_tick :: u32
  trace :: "effect list"

text \<open>C zero-initialises statics; \<open>memset\<close> in \<open>on_enter\<close> produces the same state.\<close>

definition zero_DictAttackState :: DictAttackState where
  "zero_DictAttackState =
     \<lparr>status = DictAttackStatusIdle, frequency = 0, keys_tried = 0, total_keys = 0,
      attack_time_ms = 0, found_key = replicate 32 0, success = False\<rparr>"

definition initial_dict_world :: dict_world where
  "initial_dict_world =
     \<lparr>dict_state = zero_DictAttackState, attack_start_tick = 0, trace = []\<rparr>"

subsection \<open>Callbacks\<close>

text \<open>
  \<open>furi_get_tick()\<close> is an input of the environment: every callback that reads the
  clock takes the value it reads as the argument \<open>now\<close>.
\<close>

definition dict_attack_input_callback ::
  "u32 \<Rightarrow> key_database \<Rightarrow> InputEvent \<Rightarrow> PredatorApp option \<Rightarrow> dict_world \<Rightarrow> bool \<times> dict_world"
where
  "dict_attack_input_callback now db event ctx w =
     (case ctx of
        None \<Rightarrow> (False, w)
      | Some app \<Rightarrow>
          if input_type event = InputTypeShort then
            if input_key event = InputKeyBack then (False, w)
            else if input_key event = InputKeyOk then
              if status (dict_state w) = DictAttackStatusIdle then
                (True,
                 w\<lparr>dict_state := (dict_state w)
                      \<lparr>status := DictAttackStatusAttacking,
                       keys_tried := 0,
                       total_keys := KEELOQ_KEY_COUNT db + HITAG2_KEY_COUNT db,
                       attack_time_ms := 0,
                       success := False\<rparr>,
                   attack_start_tick := now,
                   trace := trace w @ [LogAppendKeysLoaded, LogAppendTestingAll]\<rparr>)
              else if status (dict_state w) = DictAttackStatusAttacking then
                (True,
                 w\<lparr>dict_state := (dict_state w)\<lparr>status := DictAttackStatusComplete\<rparr>,
                   trace := trace w @ [LogAppendStopped]\<rparr>)
              else (True, w)
            else (True, w)
          else (True, w))"

text \<open>
  The pieces of the timer callback's body, in source order. The guard of the first
  branch keeps the index below \<open>KEELOQ_KEY_COUNT\<close>; the table is taken to have that
  many entries (on a shorter table the read is undefined in C and \<open>!\<close> is unspecified
  here). No property below depends on the value read.
\<close>

definition try_next_key :: "key_database \<Rightarrow> u32 \<Rightarrow> effect list" where
  "try_next_key db tried =
     (if tried < KEELOQ_KEY_COUNT db then
        [FuriLogTryingKeeloq tried (KEELOQ_KEYS db ! unat tried)]
      else if tried < KEELOQ_KEY_COUNT db + HITAG2_KEY_COUNT db then
        [FuriLogTryingHitag2 (tried - KEELOQ_KEY_COUNT db)]
      else [])"

definition log_progress :: "DictAttackState \<Rightarrow> effect list" where
  "log_progress s =
     (if keys_tried s mod 50 = 0 \<and> total_keys s > 0 then
        [LogAppendProgress (keys_tried s) (total_keys s)
           ((keys_tried s * 100) div total_keys s)]
      else [])"

definition dict_attack_timer_callback ::
  "u32 \<Rightarrow> key_database \<Rightarrow> PredatorApp option \<Rightarrow> dict_world \<Rightarrow> dict_world"
where
  "dict_attack_timer_callback now db ctx w =
     (case ctx of
        None \<Rightarrow> w
      | Some app \<Rightarrow>
          if status (dict_state w) = DictAttackStatusAttacking then
            let s1 = (dict_state w)\<lparr>attack_time_ms := now - attack_start_tick w\<rparr>;
                tried = try_next_key db (keys_tried s1);
                s2 = s1\<lparr>keys_tried := keys_tried s1 + 1\<rparr>;
                progress = log_progress s2;
                done = (keys_tried s2 \<ge> total_keys s2);
                s3 = (if done then s2\<lparr>status := DictAttackStatusComplete\<rparr> else s2);
                complete = (if done then [LogAppendComplete] else []);
                sent = (if view_dispatcher app then [SendCustomEvent 0] else [])
            in w\<lparr>dict_state := s3,
                 trace := trace w @ tried @ progress @ complete @ sent\<rparr>
          else w)"

text \<open>
  \<open>on_enter\<close> logs an error and returns before touching \<open>dict_state\<close> when the
  application or its view dispatcher is \<open>NULL\<close>; otherwise it clears the state and sets
  the frequency. Whether the view is available (the static \<open>dict_view\<close> is already set, or
  \<open>view_alloc\<close> succeeds) and whether \<open>furi_timer_alloc\<close> succeeds are outcomes of the
  firmware: the arguments \<open>view_ready\<close> and \<open>timer_allocated\<close>. Without a view the
  function logs an error and returns; without a timer it logs an error and goes on. Its
  last statement logs that the scene is initialised. The view and the timer themselves
  are objects of the firmware and leave \<open>dict_state\<close> alone.
\<close>

definition predator_scene_dictionary_attack_ui_on_enter ::
  "PredatorApp option \<Rightarrow> bool \<Rightarrow> bool \<Rightarrow> dict_world \<Rightarrow> dict_world"
where
  "predator_scene_dictionary_attack_ui_on_enter ctx view_ready timer_allocated w =
     (case ctx of
        None \<Rightarrow> w\<lparr>trace := trace w @ [FuriLogErrorAppNull]\<rparr>
      | Some app \<Rightarrow>
          if \<not> view_dispatcher app then
            w\<lparr>trace := trace w @ [FuriLogErrorViewDispatcherNull]\<rparr>
          else
            let cleared = zero_DictAttackState
                  \<lparr>status := DictAttackStatusIdle, frequency := 433920000\<rparr>
            in if \<not> view_ready then
                 w\<lparr>dict_state := cleared, trace := trace w @ [FuriLogErrorViewAlloc]\<rparr>
               else
                 w\<lparr>dict_state := cleared,
                   trace := trace w
                     @ (if timer_allocated then [] else [FuriLogErrorTimerAlloc])
                     @ [FuriLogInitialized]\<rparr>)"

definition predator_scene_dictionary_attack_ui_on_event ::
  "SceneManagerEvent \<Rightarrow> dict_world \<Rightarrow> bool \<times> dict_world"
where
  "predator_scene_dictionary_attack_ui_on_event event w =
     (if event_type event = SceneManagerEventTypeBack then
        (False,
         if status (dict_state w) = DictAttackStatusAttacking
         then w\<lparr>dict_state := (dict_state w)\<lparr>status := DictAttackStatusComplete\<rparr>\<rparr>
         else w)
      else if event_type event = SceneManagerEventTypeCustom then (True, w)
      else (False, w))"

definition predator_scene_dictionary_attack_ui_on_exit ::
  "PredatorApp option \<Rightarrow> dict_world \<Rightarrow> dict_world"
where
  "predator_scene_dictionary_attack_ui_on_exit ctx w =
     (case ctx of
        None \<Rightarrow> w
      | Some app \<Rightarrow>
          w\<lparr>dict_state := (dict_state w)\<lparr>status := DictAttackStatusIdle\<rparr>,
            trace := trace w @ [FuriLogExited]\<rparr>)"

subsection \<open>Executions of the scene\<close>

text \<open>
  Between \<open>on_enter\<close> and \<open>on_exit\<close> the firmware calls the scene with timer ticks,
  input events and scene-manager events, one at a time, each with the clock value it
  would read.
\<close>

datatype scene_step =
    Tick u32
  | Input u32 InputEvent
  | SceneEvent SceneManagerEvent

fun apply_step :: "key_database \<Rightarrow> PredatorApp option \<Rightarrow> dict_world \<Rightarrow> scene_step \<Rightarrow> dict_world"
where
  "apply_step db ctx w (Tick now) = dict_attack_timer_callback now db ctx w"
| "apply_step db ctx w (Input now event) =
     snd (dict_attack_input_callback now db event ctx w)"
| "apply_step db ctx w (SceneEvent event) =
     snd (predator_scene_dictionary_attack_ui_on_event event w)"

definition scene_run ::
  "key_database \<Rightarrow> PredatorApp option \<Rightarrow> dict_world \<Rightarrow> scene_step list \<Rightarrow> dict_world"
where
  "scene_run db ctx w steps = foldl (apply_step db ctx) w steps"

text \<open>The number of keys the trace shows as tried.\<close>

fun is_key_attempt :: "effect \<Rightarrow> bool" where
  "is_key_attempt (FuriLogTryingKeeloq i k) = True"
| "is_key_attempt (FuriLogTryingHitag2 i) = True"
| "is_key_attempt e = False"

definition key_attempts :: "dict_world \<Rightarrow> nat" where
  "key_attempts w = length (filter is_key_attempt (trace w))"

text \<open>
  An attack that was started with OK and is still running: the status is
  \<open>Attacking\<close>, \<open>total_keys\<close> is the size of the database and at least one key is left.
\<close>

definition attack_in_progress :: "key_database \<Rightarrow> dict_world \<Rightarrow> bool" where
  "attack_in_progress db w =
     (status (dict_state w) = DictAttackStatusAttacking \<and>
      total_keys (dict_state w) = KEELOQ_KEY_COUNT db + HITAG2_KEY_COUNT db \<and>
      keys_tried (dict_state w) < total_keys (dict_state w))"

definition ok_pressed :: InputEvent where
  "ok_pressed = \<lparr>input_type = InputTypeShort, input_key = InputKeyOk\<rparr>"


text \<open>
  What holds of \<open>dict_state\<close> throughout an execution of the scene: a running attack
  has keys left, and outside of one the counter is at most the total.
\<close>

definition scene_invariant :: "key_database \<Rightarrow> dict_world \<Rightarrow> bool" where
  "scene_invariant db w =
     (if status (dict_state w) = DictAttackStatusAttacking then attack_in_progress db w
      else status (dict_state w) \<noteq> DictAttackStatusSuccess \<and>
           keys_tried (dict_state w) \<le> total_keys (dict_state w))"

subsection \<open>The recovery loop in the words of the specification\<close>

text \<open>
  Section 4.6 of the specification, for comparison with the timer callback: try the keys
  of the corpus in order against the card (\<open>auth k\<close>: the authentication sequence
  succeeds with \<open>k\<close> as the issuer key); the first key that authenticates is reported
  as found and ends the loop, and an exhausted corpus ends in "complete, not found".
  The outcome carries the number of attempts made.
\<close>

datatype 'k recovery_outcome = RecoveryFound 'k nat | RecoveryCompleteNotFound nat

fun spec_key_recovery :: "('k \<Rightarrow> bool) \<Rightarrow> 'k list \<Rightarrow> nat \<Rightarrow> 'k recovery_outcome" where
  "spec_key_recovery auth [] attempts = RecoveryCompleteNotFound attempts"
| "spec_key_recovery auth (k # ks) attempts =
     (if auth k then RecoveryFound k (Suc attempts)
      else spec_key_recovery auth ks (Suc attempts))"

definition card_accepts :: "u64 \<Rightarrow> u64 \<Rightarrow> bool" where
  "card_accepts true_key k = (k = true_key)"

text \<open>A small database and an application for concrete runs.\<close>

definition sample_database :: key_database where
  "sample_database = \<lparr>KEELOQ_KEYS = [0x11, 0x22], KEELOQ_KEY_COUNT = 2, HITAG2_KEY_COUNT = 1\<rparr>"

definition keeloq_only_database :: key_database where
  "keeloq_only_database = \<lparr>KEELOQ_KEYS = [0x11, 0x22], KEELOQ_KEY_COUNT = 2, HITAG2_KEY_COUNT = 0\<rparr>"

definition sample_app :: PredatorApp where
  "sample_app = \<lparr>view_dispatcher = True\<rparr>"

definition started_world :: "key_database \<Rightarrow> dict_world" where
  "started_world db =
     snd (dict_attack_input_callback 1000 db ok_pressed (Some sample_app)
       (predator_scene_dictionary_attack_ui_on_enter (Some sample_app) True True
          initial_dict_world))"

section \<open>Types of the Calypso helper header\<close>

datatype CalypsoCardType =
    Calypso_Unknown
  | Calypso_Navigo
  | Calypso_Lyon_TCL
  | Calypso_MOBIB
  | Calypso_VivaViagem
  | Calypso_Andante
  | Calypso_Athens
  | Calypso_Generic

datatype CalypsoRevision = Calypso_Rev1 | Calypso_Rev2 | Calypso_Rev3 | Calypso_Rev3_Light

datatype CalypsoSecurityLevel =
    Calypso_Security_None
  | Calypso_Security_DES
  | Calypso_Security_3DES
  | Calypso_Security_AES128

text \<open>
  Fixed-size byte arrays are byte lists; the declared bounds are recorded in the member
  tables further down. \<open>CalypsoCard\<close> and \<open>CalypsoAuthContext\<close> both declare members
  \<open>security\<close> and \<open>authenticated\<close>: the unqualified names are those of the
  authentication context, declared last.
\<close>

record CalypsoCard =
  uid :: "u8 list" \<comment> \<open>\<open>uint8_t uid[4]\<close>\<close>
  atr :: "u8 list" \<comment> \<open>\<open>uint8_t atr[32]\<close>\<close>
  atr_len :: u8
  card_number :: u32
  card_type :: CalypsoCardType
  revision :: CalypsoRevision
  security :: CalypsoSecurityLevel
  authenticated :: bool

record CalypsoAuthContext =
  issuer_key :: "u8 list" \<comment> \<open>\<open>uint8_t issuer_key[16]\<close>\<close>
  session_key :: "u8 list" \<comment> \<open>\<open>uint8_t session_key[16]\<close>\<close>
  diversifier :: "u8 list" \<comment> \<open>\<open>uint8_t diversifier[8]\<close>\<close>
  challenge :: "u8 list" \<comment> \<open>\<open>uint8_t challenge[8]\<close>\<close>
  key_index :: u8
  security :: CalypsoSecurityLevel
  authenticated :: bool

record CalypsoContract =
  contract_number :: u8
  tariff_code :: u8
  profile_number :: u16
  validity_start :: "u8 list" \<comment> \<open>\<open>uint8_t validity_start[3]\<close>\<close>
  validity_end :: "u8 list" \<comment> \<open>\<open>uint8_t validity_end[3]\<close>\<close>
  trip_counter :: u16
  minutes_remaining :: u16
  zones :: "u8 list" \<comment> \<open>\<open>uint8_t zones[8]\<close>\<close>
  is_active :: bool

subsection \<open>The struct declarations as member tables\<close>

text \<open>
  A claim about which members a struct has, and how many bytes each holds, is a claim
  about the declaration. The declaration of \<open>CalypsoAuthContext\<close> is therefore also
  written down as data: the members in the order of the header, each with its C type.
\<close>

datatype c_type =
    C_uint8
  | C_uint16
  | C_uint32
  | C_bool
  | C_enum string
  | C_array c_type nat

type_synonym c_struct = "(string \<times> c_type) list"

definition CalypsoAuthContext_members :: c_struct where
  "CalypsoAuthContext_members =
     [(''issuer_key'', C_array C_uint8 16),
      (''session_key'', C_array C_uint8 16),
      (''diversifier'', C_array C_uint8 8),
      (''challenge'', C_array C_uint8 8),
      (''key_index'', C_uint8),
      (''security'', C_enum ''CalypsoSecurityLevel''),
      (''authenticated'', C_bool)]"

text \<open>\<open>s->name\<close>: the type of the member, \<open>None\<close> when the struct declares no such member.\<close>

definition member_type :: "c_struct \<Rightarrow> string \<Rightarrow> c_type option" where
  "member_type members name = map_of members name"

text \<open>The bytes a member holds when it is an array of \<open>uint8_t\<close>.\<close>

fun byte_array_length :: "c_type \<Rightarrow> nat" where
  "byte_array_length (C_array C_uint8 n) = n"
| "byte_array_length t = 0"

text \<open>The members that hold a challenge: those whose name ends in \<open>challenge\<close>.\<close>

definition is_challenge_member :: "string \<Rightarrow> bool" where
  "is_challenge_member name = (drop (length name - 9) name = ''challenge'')"

definition challenge_members :: "c_struct \<Rightarrow> c_struct" where
  "challenge_members members = filter (\<lambda>m. is_challenge_member (fst m)) members"

definition challenge_bytes :: "c_struct \<Rightarrow> nat" where
  "challenge_bytes members = sum_list (map (\<lambda>m. byte_array_length (snd m)) (challenge_members members))"

text \<open>
  The session state as the data model of the specification words it, for comparison
  with the declaration: issuer key material (16 bytes), derived session key (16 bytes),
  the 8-byte diversifier, the reader and card challenges (8 bytes each), the key index
  in use, security level, and authenticated flag.
\<close>

definition spec_AuthContext_members :: c_struct where
  "spec_AuthContext_members =
     [(''issuer_key'', C_array C_uint8 16),
      (''session_key'', C_array C_uint8 16),
      (''diversifier'', C_array C_uint8 8),
      (''reader_challenge'', C_array C_uint8 8),
      (''card_challenge'', C_array C_uint8 8),
      (''key_index'', C_uint8),
      (''security'', C_enum ''CalypsoSecurityLevel''),
      (''authenticated'', C_bool)]"

section \<open>The contracts viewer\<close>

record ContractsState =
  card :: CalypsoCard
  contracts :: "CalypsoContract list" \<comment> \<open>\<open>CalypsoContract contracts[4]\<close>\<close>
  contract_count :: u32
  selected_index :: u32
  status_text :: string \<comment> \<open>\<open>char status_text[64]\<close>, up to the terminating NUL\<close>

definition zero_CalypsoCard :: CalypsoCard where
  "zero_CalypsoCard =
     \<lparr>uid = replicate 4 0, atr = replicate 32 0, atr_len = 0, card_number = 0,
      card_type = Calypso_Unknown, revision = Calypso_Rev1,
      security = Calypso_Security_None, authenticated = False\<rparr>"

definition zero_CalypsoContract :: CalypsoContract where
  "zero_CalypsoContract =
     \<lparr>contract_number = 0, tariff_code = 0, profile_number = 0,
      validity_start = replicate 3 0, validity_end = replicate 3 0,
      trip_counter = 0, minutes_remaining = 0, zones = replicate 8 0, is_active = False\<rparr>"

definition zero_ContractsState :: ContractsState where
  "zero_ContractsState =
     \<lparr>card = zero_CalypsoCard, contracts = replicate 4 zero_CalypsoContract,
      contract_count = 0, selected_index = 0, status_text = []\<rparr>"

text \<open>The two arrows of the status line, in UTF-8.\<close>

definition arrow_left :: string where
  "arrow_left = [CHR 0xE2, CHR 0x97, CHR 0x80]"

definition arrow_right :: string where
  "arrow_right = [CHR 0xE2, CHR 0x96, CHR 0xB6]"

text \<open>
  \<open>on_enter\<close> allocates the state, clears it and writes the status line. The call that
  would read the contracts from the card is commented out in the source, so
  \<open>contract_count\<close> is still 0 when the status line is chosen and when the scene is
  shown. The result is the state the file-level pointer \<open>state\<close> points to.
\<close>

definition predator_scene_calypso_contracts_on_enter :: ContractsState where
  "predator_scene_calypso_contracts_on_enter =
     (let st = zero_ContractsState
      in if contract_count st > 1
         then st\<lparr>status_text := arrow_left @ ''/'' @ arrow_right @ '' Switch, Back to exit''\<rparr>
         else st\<lparr>status_text := ''Back to exit''\<rparr>)"

text \<open>
  The draw callback, as far as it reads the state: nothing is drawn from a \<open>NULL\<close>
  state; with no contract the callback writes "No contracts found" and returns before
  the array is touched; otherwise it reads \<open>contracts[selected_index]\<close> and renders that
  contract (number, active flag, validity dates; the selector when there is more than
  one contract). The array has four elements, and a read beyond it has no defined
  result: it is a result of its own. The tariff line of the callback names members
  \<open>tariff[0]\<close> and \<open>tariff[1]\<close>, which \<open>CalypsoContract\<close> does not declare.
\<close>

datatype draw_result =
    DrawNothing
  | DrawNoContracts
  | DrawContract u32 CalypsoContract bool
  | DrawOutOfBounds u32

definition contracts_draw_callback :: "ContractsState option \<Rightarrow> draw_result" where
  "contracts_draw_callback state =
     (case state of
        None \<Rightarrow> DrawNothing
      | Some st \<Rightarrow>
          if contract_count st = 0 then DrawNoContracts
          else if unat (selected_index st) < length (contracts st) then
            DrawContract (selected_index st) (contracts st ! unat (selected_index st))
              (contract_count st > 1)
          else DrawOutOfBounds (selected_index st))"

datatype viewer_effect = ScenePrevious | ViewPortUpdate

text \<open>
  The input callback dereferences \<open>state\<close> without a test; it runs between \<open>on_enter\<close>
  and \<open>on_exit\<close>, where the pointer is set.
\<close>

definition contracts_input_callback ::
  "InputEvent \<Rightarrow> ContractsState \<Rightarrow> bool \<times> ContractsState \<times> viewer_effect list"
where
  "contracts_input_callback event st =
     (if input_type event = InputTypeShort then
        if input_key event = InputKeyBack then (True, st, [ScenePrevious])
        else if input_key event = InputKeyLeft \<and> selected_index st > 0 then
          (True, st\<lparr>selected_index := selected_index st - 1\<rparr>, [ViewPortUpdate])
        else if input_key event = InputKeyRight \<and>
                selected_index st < contract_count st - 1 then
          (True, st\<lparr>selected_index := selected_index st + 1\<rparr>, [ViewPortUpdate])
        else (False, st, [])
      else (False, st, []))"

definition viewer_step :: "ContractsState \<Rightarrow> InputEvent \<Rightarrow> ContractsState" where
  "viewer_step st event = fst (snd (contracts_input_callback event st))"

definition viewer_run :: "ContractsState \<Rightarrow> InputEvent list \<Rightarrow> ContractsState" where
  "viewer_run st events = foldl viewer_step st events"

definition right_pressed :: InputEvent where
  "right_pressed = \<lparr>input_type = InputTypeShort, input_key = InputKeyRight\<rparr>"

definition left_pressed :: InputEvent where
  "left_pressed = \<lparr>input_type = InputTypeShort, input_key = InputKeyLeft\<rparr>"

text \<open>The entered state as it would be had three contracts been read from the card.\<close>

definition three_contracts :: ContractsState where
  "three_contracts = predator_scene_calypso_contracts_on_enter\<lparr>contract_count := 3\<rparr>"

section \<open>Authenticated operations\<close>

text \<open>
  The header declares \<open>calypso_update_record\<close>, \<open>calypso_increase_counter\<close> and
  \<open>calypso_decrease_counter\<close>; the source file with their bodies is not embedded here.
  Parameter types are taken from the prototypes, behaviour from the specification.
\<close>

text \<open>Modelled from the spec: the error taxonomy of section 7.\<close>

datatype calypso_error = TransportFailure | ProtocolReject | InvalidInput | NotAuthenticated

text \<open>
  Modelled from the spec: the transport boundary of section 6,
  \<open>exchange(command_bytes) -> response_bytes | {Timeout, TransportError}\<close>, where a
  response is either the card's acceptance or a well-formed refusal. The transport
  keeps the commands it was given, so that "no transport exchange" can be said.
\<close>

datatype transport_reply = Accepted "u8 list" | Refused "u8 list" | Timeout | TransportError

datatype counter_direction = Increase | Decrease

text \<open>
  Modelled from the spec: the commands of the authenticated operations. A counter
  command carries its fixed 3-byte amount field (section 4.5) as the 24-bit value in
  it; the specification does not give the order of the three bytes on the wire.
\<close>

type_synonym u24 = "24 word"

datatype calypso_command =
    UpdateRecordCommand u8 u8 "u8 list"
  | CounterCommand counter_direction u8 u24

record transport =
  card_reply :: "calypso_command \<Rightarrow> transport_reply"
  exchanges :: "calypso_command list"

definition exchange :: "calypso_command \<Rightarrow> transport \<Rightarrow> transport_reply \<times> transport" where
  "exchange command t = (card_reply t command, t\<lparr>exchanges := exchanges t @ [command]\<rparr>)"

text \<open>
  Modelled from the spec: an authenticated-only operation (section 4.3) checks the
  state first and fails with \<open>NotAuthenticated\<close> without a transport call (section 7);
  otherwise it sends its single command, and a timeout or transport error is a
  \<open>TransportFailure\<close>, a refusal a \<open>ProtocolReject\<close>. The prototypes take the context as
  \<open>const CalypsoAuthContext*\<close>, whose only trace of the session state is the
  \<open>authenticated\<close> flag, so the context is read and not returned.
\<close>

definition authenticated_command ::
  "calypso_command \<Rightarrow> CalypsoAuthContext \<Rightarrow> transport \<Rightarrow> (calypso_error + unit) \<times> transport"
where
  "authenticated_command command auth_ctx t =
     (if \<not> authenticated auth_ctx then (Inl NotAuthenticated, t)
      else case exchange command t of
             (Accepted response, t') \<Rightarrow> (Inr (), t')
           | (Refused response, t') \<Rightarrow> (Inl ProtocolReject, t')
           | (Timeout, t') \<Rightarrow> (Inl TransportFailure, t')
           | (TransportError, t') \<Rightarrow> (Inl TransportFailure, t'))"

text \<open>
  Modelled from the spec: the amount a counter operation puts into the amount field is
  the amount it was called with. The prototypes declare \<open>uint16_t amount\<close>.
\<close>

definition amount_field :: "u16 \<Rightarrow> u24" where
  "amount_field amount = ucast amount"

text \<open>
  Modelled from the spec: record update (section 4.3) and the two counter operations
  (section 4.5), each a single authenticated command. \<open>len\<close> bytes of \<open>data\<close> are sent.
\<close>

definition calypso_update_record ::
  "transport \<Rightarrow> CalypsoAuthContext \<Rightarrow> u8 \<Rightarrow> u8 \<Rightarrow> u8 list \<Rightarrow> u32
     \<Rightarrow> (calypso_error + unit) \<times> transport"
where
  "calypso_update_record t auth_ctx file_id record_number data len =
     authenticated_command (UpdateRecordCommand file_id record_number (take (unat len) data))
       auth_ctx t"

definition calypso_increase_counter ::
  "transport \<Rightarrow> CalypsoAuthContext \<Rightarrow> u8 \<Rightarrow> u16 \<Rightarrow> (calypso_error + unit) \<times> transport"
where
  "calypso_increase_counter t auth_ctx counter_number amount =
     authenticated_command (CounterCommand Increase counter_number (amount_field amount))
       auth_ctx t"

definition calypso_decrease_counter ::
  "transport \<Rightarrow> CalypsoAuthContext \<Rightarrow> u8 \<Rightarrow> u16 \<Rightarrow> (calypso_error + unit) \<times> transport"
where
  "calypso_decrease_counter t auth_ctx counter_number amount =
     authenticated_command (CounterCommand Decrease counter_number (amount_field amount))
       auth_ctx t"

text \<open>
  A caller that holds an amount of the 3-byte range holds it in a wider integer; C
  converts it to the parameter type \<open>uint16_t\<close> at the call, keeping the low 16 bits.
\<close>

definition to_amount_parameter :: "u32 \<Rightarrow> u16" where
  "to_amount_parameter v = ucast v"

text \<open>A context, before and after authentication, and a card that accepts everything.\<close>

definition sample_context :: CalypsoAuthContext where
  "sample_context =
     \<lparr>issuer_key = replicate 16 0, session_key = replicate 16 0,
      diversifier = replicate 8 0, challenge = replicate 8 0, key_index = 1,
      security = Calypso_Security_3DES, authenticated = False\<rparr>"

definition accepting_card :: "calypso_command \<Rightarrow> transport_reply" where
  "accepting_card command = Accepted [0x90, 0x00]"

definition fresh_transport :: transport where
  "fresh_transport = \<lparr>card_reply = accepting_card, exchanges = []\<rparr>"


chapter \<open>Properties\<close>

section \<open>The dictionary attack scene: single steps and runs of ticks\<close>

lemma tick_not_attacking:
  "status (dict_state w) \<noteq> DictAttackStatusAttacking \<Longrightarrow>
   dict_attack_timer_callback now db ctx w = w"
  by (simp add: dict_attack_timer_callback_def split: option.split)

lemma tick_null_context: "dict_attack_timer_callback now db None w = w"
  by (simp add: dict_attack_timer_callback_def)

lemma tick_attacking_state:
  assumes "status (dict_state w) = DictAttackStatusAttacking"
  shows "dict_state (dict_attack_timer_callback now db (Some app) w) =
     (dict_state w)\<lparr>attack_time_ms := now - attack_start_tick w,
        keys_tried := keys_tried (dict_state w) + 1,
        status := (if total_keys (dict_state w) \<le> keys_tried (dict_state w) + 1
                   then DictAttackStatusComplete else DictAttackStatusAttacking)\<rparr>"
  using assms by (simp add: dict_attack_timer_callback_def Let_def)

lemma tick_attacking_trace:
  assumes "status (dict_state w) = DictAttackStatusAttacking"
  shows "trace (dict_attack_timer_callback now db (Some app) w) =
     trace w @ try_next_key db (keys_tried (dict_state w))
       @ log_progress ((dict_state w)\<lparr>attack_time_ms := now - attack_start_tick w,
            keys_tried := keys_tried (dict_state w) + 1\<rparr>)
       @ (if total_keys (dict_state w) \<le> keys_tried (dict_state w) + 1
          then [LogAppendComplete] else [])
       @ (if view_dispatcher app then [SendCustomEvent 0] else [])"
  using assms by (simp add: dict_attack_timer_callback_def Let_def)

lemma tick_start_tick:
  "attack_start_tick (dict_attack_timer_callback now db ctx w) = attack_start_tick w"
  by (simp add: dict_attack_timer_callback_def Let_def split: option.split)

lemma key_attempts_try_next_key:
  "length (filter is_key_attempt (try_next_key db k)) =
     (if k < KEELOQ_KEY_COUNT db \<or> k < KEELOQ_KEY_COUNT db + HITAG2_KEY_COUNT db then 1 else 0)"
  by (simp add: try_next_key_def)

lemma no_attempt_log_progress: "filter is_key_attempt (log_progress s) = []"
  by (simp add: log_progress_def)

lemma tick_key_attempts:
  assumes "status (dict_state w) = DictAttackStatusAttacking"
  shows "key_attempts (dict_attack_timer_callback now db (Some app) w) =
     key_attempts w +
       (if keys_tried (dict_state w) < KEELOQ_KEY_COUNT db \<or>
           keys_tried (dict_state w) < KEELOQ_KEY_COUNT db + HITAG2_KEY_COUNT db then 1 else 0)"
  unfolding key_attempts_def tick_attacking_trace [OF assms]
  by (simp add: key_attempts_try_next_key no_attempt_log_progress)

lemma unat_succ_below:
  fixes k t :: u32
  assumes "k < t"
  shows "unat (k + 1) = unat k + 1"
  using assms by unat_arith

lemma input_ok_idle:
  assumes "status (dict_state w) = DictAttackStatusIdle"
  shows "dict_state (snd (dict_attack_input_callback now db ok_pressed (Some app) w)) =
     (dict_state w)\<lparr>status := DictAttackStatusAttacking, keys_tried := 0,
        total_keys := KEELOQ_KEY_COUNT db + HITAG2_KEY_COUNT db,
        attack_time_ms := 0, success := False\<rparr>"
  using assms by (simp add: dict_attack_input_callback_def ok_pressed_def)

lemma input_ok_attacking:
  assumes "status (dict_state w) = DictAttackStatusAttacking"
  shows "snd (dict_attack_input_callback now db ok_pressed (Some app) w) =
     w\<lparr>dict_state := (dict_state w)\<lparr>status := DictAttackStatusComplete\<rparr>,
       trace := trace w @ [LogAppendStopped]\<rparr>"
  using assms by (simp add: dict_attack_input_callback_def ok_pressed_def)

lemma input_started_in_progress:
  assumes "status (dict_state w) = DictAttackStatusIdle"
    and "KEELOQ_KEY_COUNT db + HITAG2_KEY_COUNT db \<noteq> 0"
  shows "attack_in_progress db (snd (dict_attack_input_callback now db ok_pressed (Some app) w))"
  using assms by (simp add: attack_in_progress_def input_ok_idle word_neq_0_conv)

lemma scene_run_Nil: "scene_run db ctx w [] = w"
  by (simp add: scene_run_def)

lemma scene_run_Cons:
  "scene_run db ctx w (x # xs) = scene_run db ctx (apply_step db ctx w x) xs"
  by (simp add: scene_run_def)

lemma scene_run_append:
  "scene_run db ctx w (xs @ ys) = scene_run db ctx (scene_run db ctx w xs) ys"
  by (simp add: scene_run_def)

lemma tick_in_progress_more:
  assumes "attack_in_progress db w"
    and "unat (keys_tried (dict_state w)) + 1 < unat (total_keys (dict_state w))"
  shows "attack_in_progress db (dict_attack_timer_callback now db (Some app) w)"
proof -
  have a: "status (dict_state w) = DictAttackStatusAttacking"
    using assms(1) by (simp add: attack_in_progress_def)
  have lt: "keys_tried (dict_state w) < total_keys (dict_state w)"
    using assms(1) by (auto simp: attack_in_progress_def)
  have s: "unat (keys_tried (dict_state w) + 1) = unat (keys_tried (dict_state w)) + 1"
    using lt by (rule unat_succ_below)
  have "keys_tried (dict_state w) + 1 < total_keys (dict_state w)"
    using assms(2) s by (simp add: word_less_nat_alt)
  then show ?thesis
    using assms(1) by (simp add: attack_in_progress_def tick_attacking_state [OF a])
qed

lemma tick_in_progress_last:
  assumes "attack_in_progress db w"
    and "unat (keys_tried (dict_state w)) + 1 = unat (total_keys (dict_state w))"
  shows "dict_state (dict_attack_timer_callback now db (Some app) w) =
     (dict_state w)\<lparr>attack_time_ms := now - attack_start_tick w,
        keys_tried := total_keys (dict_state w),
        status := DictAttackStatusComplete\<rparr>"
proof -
  have a: "status (dict_state w) = DictAttackStatusAttacking"
    using assms(1) by (simp add: attack_in_progress_def)
  have lt: "keys_tried (dict_state w) < total_keys (dict_state w)"
    using assms(1) by (auto simp: attack_in_progress_def)
  have s: "unat (keys_tried (dict_state w) + 1) = unat (keys_tried (dict_state w)) + 1"
    using lt by (rule unat_succ_below)
  have e: "keys_tried (dict_state w) + 1 = total_keys (dict_state w)"
    using assms(2) s by (simp add: word_unat_eq_iff)
  show ?thesis
    by (simp add: tick_attacking_state [OF a] e)
qed



lemma ticks_not_attacking:
  assumes "status (dict_state w) \<noteq> DictAttackStatusAttacking"
  shows "scene_run db ctx w (map Tick nows) = w"
  using assms
  by (induction nows) (simp_all add: scene_run_Nil scene_run_Cons tick_not_attacking)

lemma tick_in_progress_tried:
  assumes "attack_in_progress db w"
  shows "unat (keys_tried (dict_state (dict_attack_timer_callback now db (Some app) w))) =
     unat (keys_tried (dict_state w)) + 1"
proof -
  have a: "status (dict_state w) = DictAttackStatusAttacking"
    using assms by (simp add: attack_in_progress_def)
  have lt: "keys_tried (dict_state w) < total_keys (dict_state w)"
    using assms by (auto simp: attack_in_progress_def)
  show ?thesis
    by (simp add: tick_attacking_state [OF a] unat_succ_below [OF lt])
qed

lemma in_progress_cases:
  assumes "attack_in_progress db w"
  shows "unat (keys_tried (dict_state w)) + 1 < unat (total_keys (dict_state w)) \<or>
         unat (keys_tried (dict_state w)) + 1 = unat (total_keys (dict_state w))"
proof -
  have "keys_tried (dict_state w) < total_keys (dict_state w)"
    using assms by (auto simp: attack_in_progress_def)
  then have "unat (keys_tried (dict_state w)) < unat (total_keys (dict_state w))"
    by (simp add: word_less_nat_alt)
  then show ?thesis by arith
qed

text \<open>Ticks while keys are left: still attacking, one more key per tick.\<close>

lemma ticks_before_end:
  assumes "attack_in_progress db w"
    and "unat (keys_tried (dict_state w)) + length nows < unat (total_keys (dict_state w))"
  shows "attack_in_progress db (scene_run db (Some app) w (map Tick nows)) \<and>
     unat (keys_tried (dict_state (scene_run db (Some app) w (map Tick nows)))) =
       unat (keys_tried (dict_state w)) + length nows"
  using assms
proof (induction nows arbitrary: w)
  case Nil
  then show ?case by (simp add: scene_run_Nil)
next
  case (Cons now nows)
  let ?w1 = "dict_attack_timer_callback now db (Some app) w"
  have more: "unat (keys_tried (dict_state w)) + 1 < unat (total_keys (dict_state w))"
    using Cons.prems(2) by simp
  have p1: "attack_in_progress db ?w1"
    using Cons.prems(1) more by (rule tick_in_progress_more)
  have k1: "unat (keys_tried (dict_state ?w1)) = unat (keys_tried (dict_state w)) + 1"
    using Cons.prems(1) by (rule tick_in_progress_tried)
  have t1: "total_keys (dict_state ?w1) = total_keys (dict_state w)"
    using p1 Cons.prems(1) by (simp add: attack_in_progress_def)
  have "unat (keys_tried (dict_state ?w1)) + length nows < unat (total_keys (dict_state ?w1))"
    using Cons.prems(2) k1 t1 by simp
  from Cons.IH [OF p1 this] show ?case
    by (simp add: scene_run_Cons k1)
qed

text \<open>Ticks up to and beyond the last key: complete, with every key counted.\<close>

lemma ticks_to_end:
  assumes "attack_in_progress db w"
    and "unat (total_keys (dict_state w)) \<le> unat (keys_tried (dict_state w)) + length nows"
  shows "status (dict_state (scene_run db (Some app) w (map Tick nows))) = DictAttackStatusComplete \<and>
     keys_tried (dict_state (scene_run db (Some app) w (map Tick nows))) = total_keys (dict_state w)"
  using assms
proof (induction nows arbitrary: w)
  case Nil
  then have "unat (total_keys (dict_state w)) \<le> unat (keys_tried (dict_state w))" by simp
  moreover have "unat (keys_tried (dict_state w)) < unat (total_keys (dict_state w))"
    using Nil.prems(1) by (auto simp: attack_in_progress_def word_less_nat_alt)
  ultimately show ?case by simp
next
  case (Cons now nows)
  let ?w1 = "dict_attack_timer_callback now db (Some app) w"
  from in_progress_cases [OF Cons.prems(1)] show ?case
  proof
    assume more: "unat (keys_tried (dict_state w)) + 1 < unat (total_keys (dict_state w))"
    have p1: "attack_in_progress db ?w1"
      using Cons.prems(1) more by (rule tick_in_progress_more)
    have k1: "unat (keys_tried (dict_state ?w1)) = unat (keys_tried (dict_state w)) + 1"
      using Cons.prems(1) by (rule tick_in_progress_tried)
    have t1: "total_keys (dict_state ?w1) = total_keys (dict_state w)"
      using p1 Cons.prems(1) by (simp add: attack_in_progress_def)
    have "unat (total_keys (dict_state ?w1)) \<le> unat (keys_tried (dict_state ?w1)) + length nows"
      using Cons.prems(2) k1 t1 by simp
    from Cons.IH [OF p1 this] show ?thesis
      by (simp add: scene_run_Cons t1)
  next
    assume last: "unat (keys_tried (dict_state w)) + 1 = unat (total_keys (dict_state w))"
    have d: "dict_state ?w1 = (dict_state w)\<lparr>attack_time_ms := now - attack_start_tick w,
        keys_tried := total_keys (dict_state w), status := DictAttackStatusComplete\<rparr>"
      using Cons.prems(1) last by (rule tick_in_progress_last)
    have "status (dict_state ?w1) \<noteq> DictAttackStatusAttacking"
      by (simp add: d)
    then have "scene_run db (Some app) ?w1 (map Tick nows) = ?w1"
      by (rule ticks_not_attacking)
    then show ?thesis
      by (simp add: scene_run_Cons d)
  qed
qed

text \<open>No tick writes \<open>success\<close> or \<open>found_key\<close>, and none sets the status to \<open>Success\<close>.\<close>

lemma tick_never_reports:
  "success (dict_state (dict_attack_timer_callback now db ctx w)) = success (dict_state w) \<and>
   found_key (dict_state (dict_attack_timer_callback now db ctx w)) = found_key (dict_state w) \<and>
   (status (dict_state (dict_attack_timer_callback now db ctx w)) = DictAttackStatusSuccess
      \<longleftrightarrow> status (dict_state w) = DictAttackStatusSuccess)"
  by (simp add: dict_attack_timer_callback_def Let_def split: option.split)

lemma ticks_never_report:
  "success (dict_state (scene_run db ctx w (map Tick nows))) = success (dict_state w) \<and>
   found_key (dict_state (scene_run db ctx w (map Tick nows))) = found_key (dict_state w) \<and>
   (status (dict_state (scene_run db ctx w (map Tick nows))) = DictAttackStatusSuccess
      \<longleftrightarrow> status (dict_state w) = DictAttackStatusSuccess)"
proof (induction nows arbitrary: w)
  case Nil
  show ?case by (simp add: scene_run_Nil)
next
  case (Cons now nows)
  show ?case
    using Cons.IH [of "dict_attack_timer_callback now db ctx w"]
      tick_never_reports [of now db ctx w]
    by (simp add: scene_run_Cons)
qed

lemma started_world_sample: "started_world db =
  \<lparr>dict_state = \<lparr>status = DictAttackStatusAttacking, frequency = 433920000, keys_tried = 0,
       total_keys = KEELOQ_KEY_COUNT db + HITAG2_KEY_COUNT db, attack_time_ms = 0,
       found_key = replicate 32 0, success = False\<rparr>,
    attack_start_tick = 1000,
    trace = [FuriLogInitialized, LogAppendKeysLoaded, LogAppendTestingAll]\<rparr>"
  by (simp add: started_world_def dict_attack_input_callback_def ok_pressed_def sample_app_def
      predator_scene_dictionary_attack_ui_on_enter_def initial_dict_world_def
      zero_DictAttackState_def Let_def)

section \<open>The dictionary attack scene: the invariant of an execution\<close>

lemma in_progress_invariant:
  "attack_in_progress db w \<Longrightarrow> scene_invariant db w"
  by (auto simp: scene_invariant_def attack_in_progress_def)

lemma step_invariant:
  assumes "KEELOQ_KEY_COUNT db + HITAG2_KEY_COUNT db \<noteq> 0"
    and "scene_invariant db w"
  shows "scene_invariant db (apply_step db ctx w step)"
proof (cases "status (dict_state w) = DictAttackStatusAttacking")
  case True
  then have p: "attack_in_progress db w"
    using assms(2) by (simp add: scene_invariant_def)
  have lt: "keys_tried (dict_state w) < total_keys (dict_state w)"
    using p by (auto simp: attack_in_progress_def)
  have stopped: "scene_invariant db w'"
    if "dict_state w' = (dict_state w)\<lparr>status := DictAttackStatusComplete\<rparr>" for w'
    using lt that by (simp add: scene_invariant_def)
  show ?thesis
  proof (cases step)
    case (Tick now)
    show ?thesis
    proof (cases ctx)
      case None
      then show ?thesis using Tick assms(2) by (simp add: tick_null_context)
    next
      case (Some app)
      from in_progress_cases [OF p] show ?thesis
      proof
        assume "unat (keys_tried (dict_state w)) + 1 < unat (total_keys (dict_state w))"
        with p have "attack_in_progress db (dict_attack_timer_callback now db (Some app) w)"
          by (rule tick_in_progress_more)
        then show ?thesis using Tick Some
          by (simp add: in_progress_invariant)
      next
        assume "unat (keys_tried (dict_state w)) + 1 = unat (total_keys (dict_state w))"
        with p have "dict_state (dict_attack_timer_callback now db (Some app) w) =
            (dict_state w)\<lparr>attack_time_ms := now - attack_start_tick w,
              keys_tried := total_keys (dict_state w), status := DictAttackStatusComplete\<rparr>"
          by (rule tick_in_progress_last)
        then show ?thesis using Tick Some
          by (simp add: scene_invariant_def)
      qed
    qed
  next
    case (Input now event)
    show ?thesis
      using Input True assms(2)
      by (simp add: dict_attack_input_callback_def stopped split: option.split)
  next
    case (SceneEvent event)
    show ?thesis
      using SceneEvent True assms(2)
      by (simp add: predator_scene_dictionary_attack_ui_on_event_def stopped)
  qed
next
  case False
  show ?thesis
  proof (cases step)
    case (Tick now)
    then show ?thesis using False assms(2) by (simp add: tick_not_attacking)
  next
    case (Input now event)
    show ?thesis
    proof (cases "ctx \<noteq> None \<and> input_type event = InputTypeShort \<and>
        input_key event = InputKeyOk \<and> status (dict_state w) = DictAttackStatusIdle")
      case True
      then obtain app where c: "ctx = Some app" by auto
      have e: "event = ok_pressed"
        using True by (simp add: ok_pressed_def)
      have "attack_in_progress db (snd (dict_attack_input_callback now db ok_pressed (Some app) w))"
        using True assms(1) by (simp add: input_started_in_progress)
      then show ?thesis
        using Input c e by (simp add: in_progress_invariant)
    next
      case other: False
      have "snd (dict_attack_input_callback now db event ctx w) = w"
        using other False by (auto simp: dict_attack_input_callback_def split: option.split)
      then show ?thesis using Input assms(2) by simp
    qed
  next
    case (SceneEvent event)
    then show ?thesis using False assms(2)
      by (simp add: predator_scene_dictionary_attack_ui_on_event_def)
  qed
qed

lemma run_invariant:
  assumes "KEELOQ_KEY_COUNT db + HITAG2_KEY_COUNT db \<noteq> 0"
    and "scene_invariant db w"
  shows "scene_invariant db (scene_run db ctx w steps)"
  using assms(2)
proof (induction steps arbitrary: w)
  case Nil
  then show ?case by (simp add: scene_run_Nil)
next
  case (Cons step steps)
  from step_invariant [OF assms(1) Cons.prems] have "scene_invariant db (apply_step db ctx w step)" .
  from Cons.IH [OF this] show ?case by (simp add: scene_run_Cons)
qed

lemma invariant_entered:
  assumes "view_dispatcher app"
  shows "scene_invariant db
     (predator_scene_dictionary_attack_ui_on_enter (Some app) view_ready timer_allocated w)"
  using assms
  by (simp add: scene_invariant_def predator_scene_dictionary_attack_ui_on_enter_def Let_def
      zero_DictAttackState_def)


text \<open>In an execution over a non-empty database, a status of \<open>Attacking\<close> means keys are left.\<close>

lemma running_attack_in_progress:
  assumes "KEELOQ_KEY_COUNT db + HITAG2_KEY_COUNT db \<noteq> 0"
    and "view_dispatcher app"
    and "status (dict_state (scene_run db ctx
           (predator_scene_dictionary_attack_ui_on_enter (Some app) view_ready timer_allocated w)
           steps))
         = DictAttackStatusAttacking"
  shows "attack_in_progress db (scene_run db ctx
           (predator_scene_dictionary_attack_ui_on_enter (Some app) view_ready timer_allocated w)
           steps)"
proof -
  have "scene_invariant db (scene_run db ctx
           (predator_scene_dictionary_attack_ui_on_enter (Some app) view_ready timer_allocated w)
           steps)"
    using assms(1) invariant_entered [OF assms(2)] by (rule run_invariant)
  then show ?thesis
    using assms(3) by (simp add: scene_invariant_def)
qed

section \<open>The contracts viewer: navigation\<close>

lemma viewer_run_Nil: "viewer_run st [] = st"
  by (simp add: viewer_run_def)

lemma viewer_run_Cons: "viewer_run st (e # es) = viewer_run (viewer_step st e) es"
  by (simp add: viewer_run_def)

lemma viewer_step_count: "contract_count (viewer_step st event) = contract_count st"
  by (simp add: viewer_step_def contracts_input_callback_def)

lemma viewer_step_contracts: "contracts (viewer_step st event) = contracts st"
  by (simp add: viewer_step_def contracts_input_callback_def)

lemma viewer_run_count: "contract_count (viewer_run st events) = contract_count st"
  by (induction events arbitrary: st) (simp_all add: viewer_run_Nil viewer_run_Cons viewer_step_count)

lemma viewer_run_contracts: "contracts (viewer_run st events) = contracts st"
  by (induction events arbitrary: st)
    (simp_all add: viewer_run_Nil viewer_run_Cons viewer_step_contracts)

lemma right_guard_bound:
  fixes i n :: u32
  assumes "i < n - 1" and "n \<noteq> 0"
  shows "i + 1 < n"
  using assms by unat_arith

lemma left_bound:
  fixes i n :: u32
  assumes "i < n" and "0 < i"
  shows "i - 1 < n"
  using assms by unat_arith

lemma viewer_step_index_bound:
  assumes "selected_index st < contract_count st"
  shows "selected_index (viewer_step st event) < contract_count st"
proof -
  have n: "contract_count st \<noteq> 0"
    using assms by auto
  show ?thesis
    using assms n
    by (auto simp: viewer_step_def contracts_input_callback_def
        intro: right_guard_bound left_bound)
qed

lemma viewer_run_index_bound:
  assumes "selected_index st < contract_count st"
  shows "selected_index (viewer_run st events) < contract_count st"
  using assms
proof (induction events arbitrary: st)
  case Nil
  then show ?case by (simp add: viewer_run_Nil)
next
  case (Cons e es)
  have "selected_index (viewer_step st e) < contract_count (viewer_step st e)"
    using viewer_step_index_bound [OF Cons.prems] by (simp add: viewer_step_count)
  from Cons.IH [OF this] show ?case
    by (simp add: viewer_run_Cons viewer_step_count)
qed

lemma right_step_empty:
  assumes "contract_count st = 0" and "selected_index st \<noteq> - 1"
  shows "selected_index (viewer_step st right_pressed) = selected_index st + 1"
proof -
  have "selected_index st < - 1"
    using assms(2) by (simp add: word_order.not_eq_extremum)
  then show ?thesis
    using assms(1) by (simp add: viewer_step_def contracts_input_callback_def right_pressed_def)
qed

lemma rights_grow:
  assumes "contract_count st = 0"
    and "unat (selected_index st) + k < 2 ^ 32"
  shows "unat (selected_index (viewer_run st (replicate k right_pressed))) =
     unat (selected_index st) + k"
  using assms
proof (induction k arbitrary: st)
  case 0
  then show ?case by (simp add: viewer_run_Nil)
next
  case (Suc k)
  let ?st1 = "viewer_step st right_pressed"
  have ne: "selected_index st \<noteq> - 1"
  proof
    assume "selected_index st = - 1"
    then have "unat (selected_index st) = 2 ^ 32 - 1"
      by (simp add: unsigned_minus_1_eq_mask mask_eq_exp_minus_1)
    with Suc.prems(2) show False by simp
  qed
  have s: "selected_index ?st1 = selected_index st + 1"
    using Suc.prems(1) ne by (rule right_step_empty)
  have "unat (selected_index st) + unat (1 :: u32) < 2 ^ LENGTH(32)"
    using Suc.prems(2) by simp
  then have "unat (selected_index st + 1) = unat (selected_index st) + unat (1 :: u32)"
    by (rule unat_add_lem [THEN iffD1])
  then have u: "unat (selected_index ?st1) = unat (selected_index st) + 1"
    by (simp add: s)
  have c: "contract_count ?st1 = 0"
    using Suc.prems(1) by (simp add: viewer_step_count)
  have "unat (selected_index ?st1) + k < 2 ^ 32"
    using Suc.prems(2) u by simp
  from Suc.IH [OF c this] show ?case
    by (simp add: viewer_run_Cons u)
qed

lemma entered_state:
  "predator_scene_calypso_contracts_on_enter = zero_ContractsState\<lparr>status_text := ''Back to exit''\<rparr>"
  by (simp add: predator_scene_calypso_contracts_on_enter_def zero_ContractsState_def Let_def)

section \<open>The modelled Calypso operations: basic facts\<close>

lemma unauthenticated_command:
  "\<not> authenticated auth_ctx \<Longrightarrow>
   authenticated_command command auth_ctx t = (Inl NotAuthenticated, t)"
  by (simp add: authenticated_command_def)

lemma authenticated_command_sends:
  "authenticated auth_ctx \<Longrightarrow>
   exchanges (snd (authenticated_command command auth_ctx t)) = exchanges t @ [command]"
  by (simp add: authenticated_command_def exchange_def split: transport_reply.split)

lemma amount_field_value: "unat (amount_field amount) = unat amount"
  by (simp add: amount_field_def unsigned_ucast_eq take_bit_eq_mod)
    (use unsigned_less [of amount, where 'a = nat] in simp)

lemma amount_below: "unat (amount :: u16) \<le> 65535"
  using unsigned_less [of amount, where 'a = nat] by simp

section \<open>The dictionary attack scene: a whole run of the key loop\<close>

text \<open>
  Over a database of \<open>N \<ge> 1\<close> keys, an attack started with OK from the idle scene and
  left to run is still \<open>Attacking\<close> with \<open>keys_tried = j\<close> after \<open>j < N\<close> ticks and is
  \<open>Complete\<close> with \<open>keys_tried = N\<close> after \<open>N\<close> ticks and after any number of further
  ticks. No tick sets the status \<open>Success\<close>, \<open>success\<close> or \<open>found_key\<close>.
\<close>

lemma run_completes_after_all_keys:
  assumes "status (dict_state w) = DictAttackStatusIdle"
    and "KEELOQ_KEY_COUNT db + HITAG2_KEY_COUNT db \<noteq> 0"
  shows "let started = snd (dict_attack_input_callback now0 db ok_pressed (Some app) w);
             w' = scene_run db (Some app) started (map Tick nows);
             N = unat (KEELOQ_KEY_COUNT db + HITAG2_KEY_COUNT db)
         in (length nows < N \<longrightarrow>
               status (dict_state w') = DictAttackStatusAttacking \<and>
               unat (keys_tried (dict_state w')) = length nows) \<and>
            (N \<le> length nows \<longrightarrow>
               status (dict_state w') = DictAttackStatusComplete \<and>
               unat (keys_tried (dict_state w')) = N) \<and>
            status (dict_state w') \<noteq> DictAttackStatusSuccess \<and>
            \<not> success (dict_state w') \<and>
            found_key (dict_state w') = found_key (dict_state w)"
proof -
  let ?started = "snd (dict_attack_input_callback now0 db ok_pressed (Some app) w)"
  let ?w' = "scene_run db (Some app) ?started (map Tick nows)"
  have p: "attack_in_progress db ?started"
    using assms by (rule input_started_in_progress)
  have d: "dict_state ?started = (dict_state w)\<lparr>status := DictAttackStatusAttacking, keys_tried := 0,
        total_keys := KEELOQ_KEY_COUNT db + HITAG2_KEY_COUNT db,
        attack_time_ms := 0, success := False\<rparr>"
    using assms(1) by (rule input_ok_idle)
  have k0: "unat (keys_tried (dict_state ?started)) = 0" by (simp add: d)
  have t0: "total_keys (dict_state ?started) = KEELOQ_KEY_COUNT db + HITAG2_KEY_COUNT db"
    by (simp add: d)
  have before: "status (dict_state ?w') = DictAttackStatusAttacking \<and>
      unat (keys_tried (dict_state ?w')) = length nows"
    if "length nows < unat (KEELOQ_KEY_COUNT db + HITAG2_KEY_COUNT db)"
    using ticks_before_end [OF p, of nows app] that
    by (simp add: k0 t0 attack_in_progress_def)
  have after: "status (dict_state ?w') = DictAttackStatusComplete \<and>
      unat (keys_tried (dict_state ?w')) = unat (KEELOQ_KEY_COUNT db + HITAG2_KEY_COUNT db)"
    if "unat (KEELOQ_KEY_COUNT db + HITAG2_KEY_COUNT db) \<le> length nows"
    using ticks_to_end [OF p, of nows app] that
    by (simp add: k0 t0)
  have never: "status (dict_state ?w') \<noteq> DictAttackStatusSuccess \<and>
      \<not> success (dict_state ?w') \<and> found_key (dict_state ?w') = found_key (dict_state w)"
    using ticks_never_report [of db "Some app" ?started nows]
    by (simp add: d)
  show ?thesis
    using before after never by (simp add: Let_def)
qed

section \<open>The key loop over a corpus of N keys\<close>

text \<open>
  Claim C1: with the true key at index \<open>i\<close> of the corpus the engine reports success
  after exactly \<open>i + 1\<close> attempts, and with no matching key it reports "complete, not
  found" after exactly \<open>N\<close> attempts. The second half is what the timer callback does
  (\<open>run_completes_after_all_keys\<close>). The first half is not: the callback stands under
  the comments "TRY NEXT KEY FROM DATABASE", "Test Keeloq key" and "Test Hitag2 key" and
  the scene declares and draws \<open>DictAttackStatusSuccess\<close>, \<open>success\<close> and \<open>found_key\<close>,
  but no statement of the file assigns them. The run below has the corpus
  \<open>[0x11, 0x22]\<close> and a card whose key is \<open>0x11\<close>, at index 0. The loop of the
  specification reports it found after one attempt; the scene after its first tick is
  still \<open>Attacking\<close> with \<open>success\<close> unset, and after the second tick it is \<open>Complete\<close>,
  still with \<open>success\<close> unset.
\<close>

theorem C1_true_key_first_not_reported:
  "spec_key_recovery (card_accepts 0x11) (KEELOQ_KEYS keeloq_only_database) 0
     = RecoveryFound 0x11 1 \<and>
   status (dict_state (scene_run keeloq_only_database (Some sample_app)
      (started_world keeloq_only_database) [Tick 1100])) = DictAttackStatusAttacking \<and>
   \<not> success (dict_state (scene_run keeloq_only_database (Some sample_app)
      (started_world keeloq_only_database) [Tick 1100])) \<and>
   keys_tried (dict_state (scene_run keeloq_only_database (Some sample_app)
      (started_world keeloq_only_database) [Tick 1100])) = 1 \<and>
   status (dict_state (scene_run keeloq_only_database (Some sample_app)
      (started_world keeloq_only_database) [Tick 1100, Tick 1200])) = DictAttackStatusComplete \<and>
   \<not> success (dict_state (scene_run keeloq_only_database (Some sample_app)
      (started_world keeloq_only_database) [Tick 1100, Tick 1200]))"
  by (simp add: started_world_sample scene_run_def dict_attack_timer_callback_def Let_def
      keeloq_only_database_def sample_app_def card_accepts_def try_next_key_def log_progress_def
      word_le_nat_alt word_less_nat_alt)

section \<open>What the attempt for a key does\<close>

text \<open>
  Claim C2: the attempt for each key of the corpus runs the authentication sequence
  against the card with that key as the issuer key, and the first key that
  authenticates ends the loop early and is reported as the found key. The timer
  callback does neither, for the reason given at C1: its two branches, commented
  "Test Keeloq key" and "Test Hitag2 key", only write a log line. The run below is the
  whole scene from \<open>on_enter\<close> over the corpus \<open>[0x11, 0x22]\<close> with a card that accepts
  \<open>0x11\<close>. The loop of the specification ends after the first key and reports it. The
  scene goes on to the second key and ends \<open>Complete\<close> with \<open>keys_tried = 2\<close>,
  \<open>found_key\<close> still zeroed and \<open>success\<close> unset, and everything it did is in the trace:
  log lines and custom events, no exchange with a card.
\<close>

theorem C2_found_key_never_reported:
  "spec_key_recovery (card_accepts 0x11) (KEELOQ_KEYS keeloq_only_database) 0
     = RecoveryFound 0x11 1 \<and>
   dict_state (scene_run keeloq_only_database (Some sample_app)
      (predator_scene_dictionary_attack_ui_on_enter (Some sample_app) True True
         initial_dict_world)
      [Input 1000 ok_pressed, Tick 1100, Tick 1200]) =
     \<lparr>status = DictAttackStatusComplete, frequency = 433920000, keys_tried = 2,
      total_keys = 2, attack_time_ms = 200, found_key = replicate 32 0, success = False\<rparr> \<and>
   trace (scene_run keeloq_only_database (Some sample_app)
      (predator_scene_dictionary_attack_ui_on_enter (Some sample_app) True True
         initial_dict_world)
      [Input 1000 ok_pressed, Tick 1100, Tick 1200]) =
     [FuriLogInitialized, LogAppendKeysLoaded, LogAppendTestingAll,
      FuriLogTryingKeeloq 0 0x11, SendCustomEvent 0,
      FuriLogTryingKeeloq 1 0x22, LogAppendComplete, SendCustomEvent 0]"
  by (simp add: scene_run_def dict_attack_timer_callback_def Let_def
      dict_attack_input_callback_def ok_pressed_def
      predator_scene_dictionary_attack_ui_on_enter_def initial_dict_world_def
      zero_DictAttackState_def
      keeloq_only_database_def sample_app_def card_accepts_def try_next_key_def log_progress_def
      word_le_nat_alt word_less_nat_alt)

section \<open>One key per tick, cancellation between ticks\<close>

text \<open>
  Claim C3. A tick entered with status \<open>Attacking\<close> increments \<open>keys_tried\<close> by one;
  while an attack is in progress the increment does not wrap and the tick logs exactly
  one key. In an execution over a non-empty database every state with status
  \<open>Attacking\<close> is such a state. A tick entered with any other status changes nothing
  at all. A stop request (OK while attacking) sets the status to \<open>Complete\<close> without
  touching the counter, and the tick that follows it tries no key.
\<close>

theorem C3_one_attempt_per_tick:
  "(status (dict_state w) = DictAttackStatusAttacking \<longrightarrow>
      keys_tried (dict_state (dict_attack_timer_callback now db (Some app) w)) =
        keys_tried (dict_state w) + 1) \<and>
   (attack_in_progress db w \<longrightarrow>
      unat (keys_tried (dict_state (dict_attack_timer_callback now db (Some app) w))) =
        unat (keys_tried (dict_state w)) + 1 \<and>
      key_attempts (dict_attack_timer_callback now db (Some app) w) = key_attempts w + 1) \<and>
   (KEELOQ_KEY_COUNT db + HITAG2_KEY_COUNT db \<noteq> 0 \<and> view_dispatcher app \<and>
    status (dict_state (scene_run db (Some app)
      (predator_scene_dictionary_attack_ui_on_enter (Some app) view_ready timer_allocated w0)
      steps))
      = DictAttackStatusAttacking \<longrightarrow>
      attack_in_progress db (scene_run db (Some app)
        (predator_scene_dictionary_attack_ui_on_enter (Some app) view_ready timer_allocated w0)
      steps)) \<and>
   (status (dict_state w) \<noteq> DictAttackStatusAttacking \<longrightarrow>
      dict_attack_timer_callback now db ctx w = w) \<and>
   (status (dict_state w) = DictAttackStatusAttacking \<longrightarrow>
      (let stopped = snd (dict_attack_input_callback now db ok_pressed (Some app) w)
       in status (dict_state stopped) = DictAttackStatusComplete \<and>
          keys_tried (dict_state stopped) = keys_tried (dict_state w) \<and>
          key_attempts stopped = key_attempts w \<and>
          dict_attack_timer_callback now' db ctx stopped = stopped))"
proof -
  have one: "keys_tried (dict_state (dict_attack_timer_callback now db (Some app) w)) =
        keys_tried (dict_state w) + 1"
    if "status (dict_state w) = DictAttackStatusAttacking"
    by (simp add: tick_attacking_state [OF that])
  have two: "unat (keys_tried (dict_state (dict_attack_timer_callback now db (Some app) w))) =
        unat (keys_tried (dict_state w)) + 1 \<and>
      key_attempts (dict_attack_timer_callback now db (Some app) w) = key_attempts w + 1"
    if p: "attack_in_progress db w"
  proof -
    have a: "status (dict_state w) = DictAttackStatusAttacking"
      using p by (simp add: attack_in_progress_def)
    have "keys_tried (dict_state w) < KEELOQ_KEY_COUNT db + HITAG2_KEY_COUNT db"
      using p by (auto simp: attack_in_progress_def)
    then show ?thesis
      by (simp add: tick_in_progress_tried [OF p] tick_key_attempts [OF a])
  qed
  have running: "attack_in_progress db (scene_run db (Some app)
        (predator_scene_dictionary_attack_ui_on_enter (Some app) view_ready timer_allocated w0)
      steps)"
    if "KEELOQ_KEY_COUNT db + HITAG2_KEY_COUNT db \<noteq> 0 \<and> view_dispatcher app \<and>
      status (dict_state (scene_run db (Some app)
        (predator_scene_dictionary_attack_ui_on_enter (Some app) view_ready timer_allocated w0)
      steps))
      = DictAttackStatusAttacking"
    using that by (simp add: running_attack_in_progress)
  have three: "dict_attack_timer_callback now db ctx w = w"
    if "status (dict_state w) \<noteq> DictAttackStatusAttacking"
    using that by (rule tick_not_attacking)
  have four: "let stopped = snd (dict_attack_input_callback now db ok_pressed (Some app) w)
       in status (dict_state stopped) = DictAttackStatusComplete \<and>
          keys_tried (dict_state stopped) = keys_tried (dict_state w) \<and>
          key_attempts stopped = key_attempts w \<and>
          dict_attack_timer_callback now' db ctx stopped = stopped"
    if a: "status (dict_state w) = DictAttackStatusAttacking"
    by (simp add: Let_def input_ok_attacking [OF a] key_attempts_def tick_not_attacking)
  show ?thesis
    using one two running three four by blast
qed

text \<open>A tick of a started attack, a tick of the idle scene, and a tick after a stop.\<close>

theorem C3_one_attempt_per_tick_witness:
  "keys_tried (dict_state (dict_attack_timer_callback 1100 sample_database (Some sample_app)
      (started_world sample_database))) = 1 \<and>
   key_attempts (dict_attack_timer_callback 1100 sample_database (Some sample_app)
      (started_world sample_database)) = 1 \<and>
   attack_in_progress sample_database (started_world sample_database) \<and>
   dict_attack_timer_callback 1100 sample_database (Some sample_app) initial_dict_world
     = initial_dict_world \<and>
   status (dict_state (snd (dict_attack_input_callback 1150 sample_database ok_pressed
      (Some sample_app) (started_world sample_database)))) = DictAttackStatusComplete \<and>
   dict_attack_timer_callback 1200 sample_database (Some sample_app)
      (snd (dict_attack_input_callback 1150 sample_database ok_pressed
        (Some sample_app) (started_world sample_database))) =
     snd (dict_attack_input_callback 1150 sample_database ok_pressed
        (Some sample_app) (started_world sample_database))"
proof -
  have a: "status (dict_state (started_world sample_database)) = DictAttackStatusAttacking"
    by (simp add: started_world_sample)
  have r: "scene_run sample_database (Some sample_app)
      (predator_scene_dictionary_attack_ui_on_enter (Some sample_app) True True
        initial_dict_world)
      [Input 1000 ok_pressed] = started_world sample_database"
    by (simp add: scene_run_def started_world_def)
  have n: "KEELOQ_KEY_COUNT sample_database + HITAG2_KEY_COUNT sample_database \<noteq> 0"
    by (simp add: sample_database_def)
  have v: "view_dispatcher sample_app"
    by (simp add: sample_app_def)
  have p: "attack_in_progress sample_database (started_world sample_database)"
    using n v a r
      C3_one_attempt_per_tick [where db = sample_database and app = sample_app
        and ?w0.0 = initial_dict_world and steps = "[Input 1000 ok_pressed]"
        and view_ready = True and timer_allocated = True]
    by simp
  have i: "status (dict_state initial_dict_world) \<noteq> DictAttackStatusAttacking"
    by (simp add: initial_dict_world_def zero_DictAttackState_def)
  have k0: "key_attempts (started_world sample_database) = 0"
    by (simp add: key_attempts_def started_world_sample)
  let ?s = "started_world sample_database"
  have k: "keys_tried (dict_state ?s) = 0"
    by (simp add: started_world_sample)
  note t1 = C3_one_attempt_per_tick [where w = ?s and now = 1100 and db = sample_database
      and app = sample_app and ctx = "Some sample_app" and now' = 1200]
  note t2 = C3_one_attempt_per_tick [where w = ?s and now = 1150 and db = sample_database
      and app = sample_app and ctx = "Some sample_app" and now' = 1200]
  note t3 = C3_one_attempt_per_tick [where w = initial_dict_world and now = 1100
      and db = sample_database and app = sample_app and ctx = "Some sample_app" and now' = 1200]
  from t1 a have c1: "keys_tried (dict_state (dict_attack_timer_callback 1100 sample_database
      (Some sample_app) ?s)) = keys_tried (dict_state ?s) + 1"
    by blast
  from t1 p have c2: "key_attempts (dict_attack_timer_callback 1100 sample_database
      (Some sample_app) ?s) = key_attempts ?s + 1"
    by blast
  from t3 i have c3: "dict_attack_timer_callback 1100 sample_database (Some sample_app)
      initial_dict_world = initial_dict_world"
    by blast
  from t2 a have c4: "let stopped = snd (dict_attack_input_callback 1150 sample_database
        ok_pressed (Some sample_app) ?s)
      in status (dict_state stopped) = DictAttackStatusComplete \<and>
         keys_tried (dict_state stopped) = keys_tried (dict_state ?s) \<and>
         key_attempts stopped = key_attempts ?s \<and>
         dict_attack_timer_callback 1200 sample_database (Some sample_app) stopped = stopped"
    by blast
  show ?thesis
    using c1 c2 c3 c4 p by (simp add: Let_def k k0)
qed

section \<open>The counter stays within the total and freezes after the attack\<close>



section \<open>The viewer reads the contracts array within its bounds\<close>

text \<open>
  Claim C9. The draw callback reads \<open>contracts[selected_index]\<close> only when
  \<open>contract_count\<close> is not 0. From a state with \<open>selected_index < contract_count\<close> (as
  after entering with contracts read: index 0, count at least 1 and at most 4), every
  sequence of input events keeps \<open>contract_count\<close> and keeps
  \<open>selected_index < contract_count\<close>, so the read is within the four elements. In the
  state \<open>on_enter\<close> really produces, \<open>contract_count\<close> is 0: the guard of the right key
  compares with \<open>0 - 1 = 0xFFFFFFFF\<close>, so \<open>k\<close> presses of the right key take
  \<open>selected_index\<close> to \<open>k\<close>; the draw callback still reads nothing, since the count stays 0.
\<close>

theorem C9_viewer_reads_in_bounds:
  "contracts_draw_callback None = DrawNothing \<and>
   (contract_count st = 0 \<longrightarrow> contracts_draw_callback (Some st) = DrawNoContracts) \<and>
   (selected_index st < contract_count st \<and> length (contracts st) = 4 \<and>
    unat (contract_count st) \<le> 4 \<longrightarrow>
      (let st' = viewer_run st events
       in contract_count st' = contract_count st \<and>
          selected_index st' < contract_count st' \<and>
          unat (selected_index st') < 4 \<and>
          contracts_draw_callback (Some st') =
            DrawContract (selected_index st') (contracts st ! unat (selected_index st'))
              (1 < contract_count st))) \<and>
   (let st' = viewer_run predator_scene_calypso_contracts_on_enter events
    in contract_count st' = 0 \<and> contracts_draw_callback (Some st') = DrawNoContracts) \<and>
   (k < 2 ^ 32 \<longrightarrow>
      unat (selected_index
        (viewer_run predator_scene_calypso_contracts_on_enter (replicate k right_pressed))) = k)"
proof -
  have null: "contracts_draw_callback None = DrawNothing"
    by (simp add: contracts_draw_callback_def)
  have empty: "contracts_draw_callback (Some s) = DrawNoContracts" if "contract_count s = 0" for s
    using that by (simp add: contracts_draw_callback_def)
  have nav: "let st' = viewer_run st events
       in contract_count st' = contract_count st \<and>
          selected_index st' < contract_count st' \<and>
          unat (selected_index st') < 4 \<and>
          contracts_draw_callback (Some st') =
            DrawContract (selected_index st') (contracts st ! unat (selected_index st'))
              (1 < contract_count st)"
    if h: "selected_index st < contract_count st \<and> length (contracts st) = 4 \<and>
      unat (contract_count st) \<le> 4"
  proof -
    have below: "selected_index st < contract_count st"
      and len: "length (contracts st) = 4"
      and cnt: "unat (contract_count st) \<le> 4"
      using h by simp_all
    let ?st' = "viewer_run st events"
    have c: "contract_count ?st' = contract_count st"
      by (rule viewer_run_count)
    have a: "contracts ?st' = contracts st"
      by (rule viewer_run_contracts)
    have b: "selected_index ?st' < contract_count st"
      using below by (rule viewer_run_index_bound)
    then have u: "unat (selected_index ?st') < 4"
      using cnt by (simp add: word_less_nat_alt)
    have nz: "contract_count st \<noteq> 0"
      using below by auto
    show ?thesis
      using b u nz by (simp add: Let_def c a len contracts_draw_callback_def)
  qed
  let ?e = "viewer_run predator_scene_calypso_contracts_on_enter events"
  have c0: "contract_count predator_scene_calypso_contracts_on_enter = 0"
    by (simp add: entered_state zero_ContractsState_def)
  have i0: "selected_index predator_scene_calypso_contracts_on_enter = 0"
    by (simp add: entered_state zero_ContractsState_def)
  have ce: "contract_count ?e = 0"
    by (simp add: viewer_run_count c0)
  have entered: "let st' = viewer_run predator_scene_calypso_contracts_on_enter events
    in contract_count st' = 0 \<and> contracts_draw_callback (Some st') = DrawNoContracts"
    using ce empty [OF ce] by (simp add: Let_def)
  have grow: "unat (selected_index
        (viewer_run predator_scene_calypso_contracts_on_enter (replicate k right_pressed))) = k"
    if "k < 2 ^ 32"
    using rights_grow [OF c0, of k] that by (simp add: i0)
  show ?thesis
    using null empty [of st] nav entered grow by blast
qed

text \<open>
  Three contracts, right three times (the third is refused) and left once: contract 1 is
  drawn. With no contract, five presses of the right key move the index to 5.
\<close>

theorem C9_viewer_reads_in_bounds_witness:
  "contracts_draw_callback
      (Some (viewer_run three_contracts [right_pressed, right_pressed, right_pressed, left_pressed]))
     = DrawContract 1 zero_CalypsoContract True \<and>
   selected_index
      (viewer_run three_contracts [right_pressed, right_pressed, right_pressed, left_pressed]) = 1 \<and>
   contracts_draw_callback (Some predator_scene_calypso_contracts_on_enter) = DrawNoContracts \<and>
   unat (selected_index
      (viewer_run predator_scene_calypso_contracts_on_enter (replicate 5 right_pressed))) = 5"
proof -
  let ?events = "[right_pressed, right_pressed, right_pressed, left_pressed]"
  note t = C9_viewer_reads_in_bounds [of three_contracts ?events 5]
  have h: "selected_index three_contracts < contract_count three_contracts \<and>
      length (contracts three_contracts) = 4 \<and> unat (contract_count three_contracts) \<le> 4"
    by (simp add: three_contracts_def entered_state zero_ContractsState_def)
  have i: "selected_index (viewer_run three_contracts ?events) = 1"
    by (simp add: viewer_run_def viewer_step_def contracts_input_callback_def
        three_contracts_def entered_state zero_ContractsState_def right_pressed_def
        left_pressed_def word_less_nat_alt)
  have z: "contracts three_contracts ! Suc 0 = zero_CalypsoContract"
    by (simp add: three_contracts_def entered_state zero_ContractsState_def)
  have cnt: "contract_count three_contracts = 3"
    by (simp add: three_contracts_def)
  from t h have d: "let st' = viewer_run three_contracts ?events
       in contract_count st' = contract_count three_contracts \<and>
          selected_index st' < contract_count st' \<and>
          unat (selected_index st') < 4 \<and>
          contracts_draw_callback (Some st') =
            DrawContract (selected_index st') (contracts three_contracts ! unat (selected_index st'))
              (1 < contract_count three_contracts)"
    by blast
  have c0: "contract_count predator_scene_calypso_contracts_on_enter = 0"
    by (simp add: entered_state zero_ContractsState_def)
  from t c0 have e: "contracts_draw_callback (Some predator_scene_calypso_contracts_on_enter)
      = DrawNoContracts"
    using C9_viewer_reads_in_bounds [of predator_scene_calypso_contracts_on_enter "[]" 5]
    by blast
  from t have g: "unat (selected_index
      (viewer_run predator_scene_calypso_contracts_on_enter (replicate 5 right_pressed))) = 5"
    by simp
  show ?thesis
    using d e g by (simp add: Let_def i z cnt)
qed

section \<open>The amount of a counter operation\<close>

text \<open>
  Claim C4, as amended. \<open>calypso_increase_counter\<close> and \<open>calypso_decrease_counter\<close>
  are declared with \<open>uint16_t amount\<close>. On an authenticated session each sends a single
  command whose 3-byte amount field carries the amount it was called with, and the
  amounts that can be passed and transmitted span the 16-bit range 0 to 65,535: every
  amount is at most 65,535, and every number up to 65,535 is the amount of some call.
\<close>

theorem C4_counter_amount_is_16_bit:
  assumes "authenticated auth_ctx"
  shows "exchanges (snd (calypso_increase_counter t auth_ctx counter_number amount)) =
           exchanges t @ [CounterCommand Increase counter_number (amount_field amount)] \<and>
         exchanges (snd (calypso_decrease_counter t auth_ctx counter_number amount)) =
           exchanges t @ [CounterCommand Decrease counter_number (amount_field amount)] \<and>
         unat (amount_field amount) = unat amount \<and>
         unat amount \<le> 65535 \<and>
         (n \<le> 65535 \<longrightarrow> unat (amount_field (of_nat n)) = n)"
proof -
  have span: "unat (amount_field (of_nat n)) = n" if "n \<le> 65535"
    using that by (simp add: amount_field_value unat_of_nat)
  show ?thesis
    using assms span
    by (simp add: calypso_increase_counter_def calypso_decrease_counter_def
        authenticated_command_sends amount_field_value amount_below)
qed

text \<open>An increase by \<open>0x1234\<close> and a decrease by the largest amount, \<open>0xFFFF\<close>.\<close>

theorem C4_counter_amount_is_16_bit_witness:
  "exchanges (snd (calypso_increase_counter fresh_transport
      (sample_context\<lparr>authenticated := True\<rparr>) 1 0x1234)) =
     [CounterCommand Increase 1 0x1234] \<and>
   exchanges (snd (calypso_decrease_counter fresh_transport
      (sample_context\<lparr>authenticated := True\<rparr>) 1 0xFFFF)) =
     [CounterCommand Decrease 1 0xFFFF] \<and>
   unat (amount_field (of_nat 65535)) = 65535"
proof -
  have h: "authenticated (sample_context\<lparr>authenticated := True\<rparr>)"
    by simp
  have e: "exchanges fresh_transport = []"
    by (simp add: fresh_transport_def)
  show ?thesis
    using C4_counter_amount_is_16_bit [OF h, where t = fresh_transport and counter_number = 1
        and amount = "0x1234" and n = 65535]
      C4_counter_amount_is_16_bit [OF h, where t = fresh_transport and counter_number = 1
        and amount = "0xFFFF" and n = 65535]
    by (simp add: e amount_field_def)
qed

text \<open>
  Claim C4 as stated fails. A caller's amount 16,777,215, the top of the 3-byte range,
  reaches the \<open>uint16_t\<close> parameter as 65,535, and 65,536 reaches it as 0: whatever the
  function does with its parameter, the call with 16,777,215 is the call with 65,535.
\<close>

theorem C4_three_byte_amount_counterexample:
  "to_amount_parameter 16777215 = 65535 \<and>
   to_amount_parameter 65536 = 0 \<and>
   calypso_increase_counter fresh_transport (sample_context\<lparr>authenticated := True\<rparr>) 1
       (to_amount_parameter 16777215) =
     calypso_increase_counter fresh_transport (sample_context\<lparr>authenticated := True\<rparr>) 1
       65535 \<and>
   calypso_decrease_counter fresh_transport (sample_context\<lparr>authenticated := True\<rparr>) 1
       (to_amount_parameter 65536) =
     calypso_decrease_counter fresh_transport (sample_context\<lparr>authenticated := True\<rparr>) 1 0"
proof -
  have top: "to_amount_parameter 16777215 = 65535"
    by (simp add: to_amount_parameter_def)
  have next_above: "to_amount_parameter 65536 = 0"
    by (simp add: to_amount_parameter_def)
  show ?thesis
    unfolding top next_above by simp
qed

section \<open>Authenticated-only operations outside an authenticated session\<close>

text \<open>
  Claim C5. With the \<open>authenticated\<close> flag of the context unset, record update, counter
  increase and counter decrease each fail with \<open>NotAuthenticated\<close> and return the
  transport as it was: no command has been exchanged. The context is passed as a
  pointer to \<open>const\<close> and is not written.
\<close>

theorem C5_unauthenticated_operations_fail:
  assumes "\<not> authenticated auth_ctx"
  shows "calypso_update_record t auth_ctx file_id record_number data len
           = (Inl NotAuthenticated, t) \<and>
         calypso_increase_counter t auth_ctx counter_number amount
           = (Inl NotAuthenticated, t) \<and>
         calypso_decrease_counter t auth_ctx counter_number amount
           = (Inl NotAuthenticated, t) \<and>
         exchanges (snd (calypso_update_record t auth_ctx file_id record_number data len))
           = exchanges t \<and>
         exchanges (snd (calypso_increase_counter t auth_ctx counter_number amount))
           = exchanges t \<and>
         exchanges (snd (calypso_decrease_counter t auth_ctx counter_number amount))
           = exchanges t"
  using assms
  by (simp add: calypso_update_record_def calypso_increase_counter_def
      calypso_decrease_counter_def unauthenticated_command)

text \<open>The three operations on a context that was never authenticated.\<close>

theorem C5_unauthenticated_operations_fail_witness:
  "calypso_update_record fresh_transport sample_context 0x20 1 [0xAA, 0xBB] 2
     = (Inl NotAuthenticated, fresh_transport) \<and>
   calypso_increase_counter fresh_transport sample_context 1 5
     = (Inl NotAuthenticated, fresh_transport) \<and>
   calypso_decrease_counter fresh_transport sample_context 1 5
     = (Inl NotAuthenticated, fresh_transport) \<and>
   exchanges (snd (calypso_increase_counter fresh_transport sample_context 1 5)) = []"
proof -
  have h: "\<not> authenticated sample_context"
    by (simp add: sample_context_def)
  have e: "exchanges fresh_transport = []"
    by (simp add: fresh_transport_def)
  show ?thesis
    using C5_unauthenticated_operations_fail [OF h, where t = fresh_transport and file_id = "0x20"
        and record_number = 1 and data = "[0xAA, 0xBB]" and len = 2 and counter_number = 1
        and amount = 5]
    by (simp add: e)
qed

section \<open>The members of the authentication context\<close>

text \<open>
  Claim C6, as amended. \<open>CalypsoAuthContext\<close> holds 16 bytes of issuer key, a 16-byte
  session key, the 8-byte diversifier and a single 8-byte \<open>challenge\<close>; it has no
  second challenge member.
\<close>

theorem C6_auth_context_holds_one_challenge:
  "member_type CalypsoAuthContext_members ''issuer_key'' = Some (C_array C_uint8 16) \<and>
   member_type CalypsoAuthContext_members ''session_key'' = Some (C_array C_uint8 16) \<and>
   member_type CalypsoAuthContext_members ''diversifier'' = Some (C_array C_uint8 8) \<and>
   member_type CalypsoAuthContext_members ''challenge'' = Some (C_array C_uint8 8) \<and>
   challenge_members CalypsoAuthContext_members = [(''challenge'', C_array C_uint8 8)]"
  by (simp add: member_type_def CalypsoAuthContext_members_def challenge_members_def
      is_challenge_member_def)

text \<open>
  Claim C6 as stated fails. The data model of the specification needs 16 bytes for the
  reader and the card challenge; the declaration provides 8 bytes of challenge, and
  neither a \<open>reader_challenge\<close> nor a \<open>card_challenge\<close> member.
\<close>

theorem C6_two_challenges_counterexample:
  "challenge_bytes spec_AuthContext_members = 16 \<and>
   challenge_bytes CalypsoAuthContext_members = 8 \<and>
   member_type CalypsoAuthContext_members ''reader_challenge'' = None \<and>
   member_type CalypsoAuthContext_members ''card_challenge'' = None"
  by (simp add: member_type_def CalypsoAuthContext_members_def spec_AuthContext_members_def
      challenge_bytes_def challenge_members_def is_challenge_member_def)

end
